theory Spec2Isabelle
  imports Main "HOL-Library.Word"
begin

section \<open>JavaScript strings\<close>

text \<open>
  A JavaScript string is a sequence of UTF-16 code units; \<open>length\<close>, \<open>indexOf\<close> and
  \<open>substring\<close> count code units.
\<close>

type_synonym cu = "16 word"
type_synonym jsstring = "cu list"

text \<open>
  The handlers call \<open>String.prototype.toLowerCase\<close>, a builtin of the runtime with the
  case tables of Unicode behind it. It is a parameter \<open>toLowerCase\<close> of the handlers
  below. \<open>latinLowerCase\<close> is the builtin on the strings the examples use, strings of
  code units up to U+00FF and of U+0130: the capital letters of Basic Latin and Latin-1
  move to their small letters, U+0130 (capital I with dot above) becomes the two code
  units U+0069 U+0307, and the other code units of that range have no lower case of their
  own. Nothing is said with it about a string with any other code unit.
\<close>

definition latinLowerUnit :: "cu \<Rightarrow> jsstring" where
  "latinLowerUnit c =
     (if 0x41 \<le> c \<and> c \<le> 0x5A then [c + 0x20]
      else if 0xC0 \<le> c \<and> c \<le> 0xDE \<and> c \<noteq> 0xD7 then [c + 0x20]
      else if c = 0x130 then [0x69, 0x307]
      else [c])"

definition latinLowerCase :: "jsstring \<Rightarrow> jsstring" where
  "latinLowerCase s = concat (map latinLowerUnit s)"

text \<open>
  \<open>hay.indexOf(needle, pos)\<close>: the least \<open>k\<close> at or after \<open>min pos (length hay)\<close> at which
  \<open>needle\<close> occurs in \<open>hay\<close>; \<open>None\<close> stands for \<open>-1\<close>. An empty needle occurs everywhere,
  also at the end of the string.
\<close>

fun indexFrom :: "jsstring \<Rightarrow> jsstring \<Rightarrow> nat \<Rightarrow> nat option" where
  "indexFrom needle [] k = (if needle = [] then Some k else None)"
| "indexFrom needle (h # hs) k =
     (if take (length needle) (h # hs) = needle then Some k
      else indexFrom needle hs (Suc k))"

definition indexOf :: "jsstring \<Rightarrow> jsstring \<Rightarrow> nat \<Rightarrow> nat option" where
  "indexOf hay needle pos =
     (let start = min pos (length hay) in indexFrom needle (drop start hay) start)"

text \<open>\<open>s.substring(a, b)\<close>: both ends are clamped to the length and swapped when out of order.\<close>

definition substring :: "jsstring \<Rightarrow> nat \<Rightarrow> nat \<Rightarrow> jsstring" where
  "substring s a b =
     (let a' = min a (length s); b' = min b (length s);
          lo = min a' b'; hi = max a' b'
      in take (hi - lo) (drop lo s))"

section \<open>Document content and text extraction\<close>

record TextRun =
  content :: "jsstring option"

text \<open>
  A paragraph element carries its own range in the document's index space. The fields are
  the API's \<open>startIndex\<close> and \<open>endIndex\<close>; they are written \<open>elemStartIndex\<close> and
  \<open>elemEndIndex\<close> here, apart from the fields of the same name of a search match.
\<close>

record ParagraphElement =
  elemStartIndex :: nat
  elemEndIndex :: nat
  textRun :: "TextRun option"

record Paragraph =
  elements :: "ParagraphElement list option"

record StructuralElement =
  "paragraph" :: "Paragraph option"

datatype jsError = TypeError | RangeError

text \<open>\<open>elem.textRun.content || ''\<close> when \<open>elem.textRun\<close> is there, nothing otherwise.\<close>

definition elemText :: "ParagraphElement \<Rightarrow> jsstring" where
  "elemText elem =
     (case textRun elem of
        None \<Rightarrow> []
      | Some tr \<Rightarrow> (case content tr of None \<Rightarrow> [] | Some s \<Rightarrow> s))"

text \<open>
  The extraction loop shared by the three tools: \<open>documentText\<close> grows by the content of
  every text run of every paragraph, in order. Iterating a paragraph that has no
  \<open>elements\<close> throws a \<open>TypeError\<close>, which the handler's \<open>catch\<close> turns into an error
  result.
\<close>

fun extractText :: "StructuralElement list \<Rightarrow> jsstring \<Rightarrow> jsError + jsstring" where
  "extractText [] documentText = Inr documentText"
| "extractText (element # rest) documentText =
     (case paragraph element of
        None \<Rightarrow> extractText rest documentText
      | Some p \<Rightarrow>
          (case elements p of
             None \<Rightarrow> Inl TypeError
           | Some es \<Rightarrow> extractText rest (documentText @ concat (map elemText es))))"

section \<open>find_and_replace\<close>

text \<open>
  The scan loop
  \<^verbatim>\<open>while ((index = docText.indexOf(searchText, index)) !== -1) {
    matches.push(index); index += searchText.length; }\<close>
  The loop does not stop by itself when the needle is empty. What stops it then is the
  array: an array holds at most \<open>2^32 - 1\<close> entries, and \<open>push\<close> onto a full one throws
  a \<open>RangeError\<close> (an engine may give up sooner, with the same error). The \<open>try\<close> of the
  handler is around the loop, so the error ends up in its \<open>catch\<close>. The arrays of the
  other loops grow with the matches found in the text or with \<open>maxResults\<close> and are taken
  to fit.
\<close>

definition maxArrayLength :: nat where
  "maxArrayLength = 4294967295"

function findMatches ::
  "jsstring \<Rightarrow> jsstring \<Rightarrow> nat \<Rightarrow> nat list \<Rightarrow> jsError + nat list" where
  "findMatches docText searchText index matches =
     (case indexOf docText searchText index of
        None \<Rightarrow> Inr matches
      | Some i \<Rightarrow>
          (if length matches < maxArrayLength
           then findMatches docText searchText (i + length searchText) (matches @ [i])
           else Inl RangeError))"
  by pat_completeness auto
termination
  by (relation "measure (\<lambda>(docText, searchText, index, matches).
                           maxArrayLength - length matches)")
     auto

declare findMatches.simps [simp del]

datatype request =
    DeleteContentRange nat nat
  | InsertText nat jsstring

text \<open>\<open>matches.sort((a, b) => b - a)\<close>: the numbers in descending order.\<close>

definition sortDescending :: "nat list \<Rightarrow> nat list" where
  "sortDescending ms = rev (sort ms)"

text \<open>
  The loop over \<open>sortedMatches\<close>; the state is the request list built so far and
  \<open>replacementsCount\<close>.
\<close>

fun replaceLoop ::
  "bool \<Rightarrow> jsstring \<Rightarrow> jsstring \<Rightarrow> nat list \<Rightarrow> request list \<times> nat \<Rightarrow> request list \<times> nat" where
  "replaceLoop replaceAll findText replaceText [] st = st"
| "replaceLoop replaceAll findText replaceText (matchIndex # rest) (requests, replacementsCount) =
     (if \<not> replaceAll \<and> replacementsCount \<ge> 1 then (requests, replacementsCount)
      else replaceLoop replaceAll findText replaceText rest
             (requests @ [DeleteContentRange matchIndex (matchIndex + length findText),
                          InsertText matchIndex replaceText],
              replacementsCount + 1))"

text \<open>
  What the handler hands back when the two API calls go through: the \<open>success\<close> and
  \<open>replacementsCount\<close> fields of \<open>structuredContent\<close>, and the requests given to
  \<open>batchUpdate\<close> (none, and no call, when nothing matched). The message texts are left
  out. An error thrown on the way is the result of the \<open>catch\<close>.
\<close>

record replaceResult =
  success :: bool
  replacementsCount :: nat
  requests :: "request list"

definition find_and_replace ::
  "(jsstring \<Rightarrow> jsstring) \<Rightarrow> StructuralElement list \<Rightarrow> jsstring \<Rightarrow> jsstring \<Rightarrow> bool \<Rightarrow> bool
     \<Rightarrow> jsError + replaceResult" where
  "find_and_replace toLowerCase body findText replaceText matchCase replaceAll =
     (case extractText body [] of
        Inl e \<Rightarrow> Inl e
      | Inr documentText \<Rightarrow>
          (let searchText = (if matchCase then findText else toLowerCase findText);
               docText = (if matchCase then documentText else toLowerCase documentText)
           in case findMatches docText searchText 0 [] of
                Inl e \<Rightarrow> Inl e
              | Inr matches \<Rightarrow>
                  (if length matches = 0
                   then Inr \<lparr>success = False, replacementsCount = 0, requests = []\<rparr>
                   else (case replaceLoop replaceAll findText replaceText
                                (sortDescending matches) ([], 0) of
                           (reqs, n) \<Rightarrow>
                             Inr \<lparr>success = True, replacementsCount = n,
                                  requests = reqs\<rparr>))))"

section \<open>search_text_in_document\<close>

record searchMatch =
  startIndex :: nat
  endIndex :: nat
  "context" :: jsstring

text \<open>
  The scan loop of the search tool. \<open>limit\<close> is \<open>maxResults || 10\<close>. Here the index moves
  on by the length of \<open>searchText\<close> as it was given, while the occurrence is looked up
  with \<open>searchTextLower\<close> in \<open>docTextLower\<close>; the context is cut from \<open>documentText\<close>.
\<close>

function searchLoop ::
  "jsstring \<Rightarrow> jsstring \<Rightarrow> jsstring \<Rightarrow> jsstring \<Rightarrow> int \<Rightarrow> nat \<Rightarrow> searchMatch list
     \<Rightarrow> searchMatch list" where
  "searchLoop documentText docTextLower searchText searchTextLower limit index matches =
     (case indexOf docTextLower searchTextLower index of
        None \<Rightarrow> matches
      | Some i \<Rightarrow>
          (if int (length matches) < limit
           then (let contextStart = i - 20;
                     contextEnd = min (length documentText) (i + length searchText + 20);
                     ctx = substring documentText contextStart contextEnd
                 in searchLoop documentText docTextLower searchText searchTextLower limit
                      (i + length searchText)
                      (matches @ [\<lparr>startIndex = i, endIndex = i + length searchText,
                                   context = ctx\<rparr>]))
           else matches))"
  by pat_completeness auto
termination
  by (relation "measure (\<lambda>(documentText, docTextLower, searchText, searchTextLower,
                           limit, index, matches). nat (limit - int (length matches)))")
     auto

declare searchLoop.simps [simp del]

text \<open>
  The \<open>matches\<close> field of the result; \<open>success\<close> is true and \<open>totalMatches\<close> is the length
  of \<open>matches\<close> whenever the handler gets this far. \<open>maxResults\<close> is a whole number or
  absent.
\<close>

definition search_text_in_document ::
  "(jsstring \<Rightarrow> jsstring) \<Rightarrow> StructuralElement list \<Rightarrow> jsstring \<Rightarrow> bool \<Rightarrow> int option
     \<Rightarrow> jsError + searchMatch list" where
  "search_text_in_document toLowerCase body searchText matchCase maxResults =
     (case extractText body [] of
        Inl e \<Rightarrow> Inl e
      | Inr documentText \<Rightarrow>
          (let searchTextLower = (if matchCase then searchText else toLowerCase searchText);
               docTextLower = (if matchCase then documentText else toLowerCase documentText);
               limit = (case maxResults of
                          None \<Rightarrow> 10
                        | Some n \<Rightarrow> if n = 0 then 10 else n)
           in Inr (searchLoop documentText docTextLower searchText searchTextLower
                     limit 0 [])))"

section \<open>get_word_count\<close>

text \<open>
  White space as \<open>trim\<close> and the class \<open>\\s\<close> of a regular expression see it: the
  ECMAScript white-space and line-terminator code units.
\<close>

definition isSpace :: "cu \<Rightarrow> bool" where
  "isSpace c =
     (c = 0x09 \<or> c = 0x0A \<or> c = 0x0B \<or> c = 0x0C \<or> c = 0x0D \<or> c = 0x20 \<or> c = 0xA0
      \<or> c = 0x1680 \<or> (0x2000 \<le> c \<and> c \<le> 0x200A) \<or> c = 0x2028 \<or> c = 0x2029
      \<or> c = 0x202F \<or> c = 0x205F \<or> c = 0x3000 \<or> c = 0xFEFF)"

definition trim :: "jsstring \<Rightarrow> jsstring" where
  "trim s = rev (dropWhile isSpace (rev (dropWhile isSpace s)))"

text \<open>
  \<open>s.split(/\\s+/)\<close>: the pieces between the maximal runs of white space; a run at either
  end leaves an empty piece there, and the empty string gives one empty piece.
\<close>

function splitSpaces :: "jsstring \<Rightarrow> jsstring \<Rightarrow> jsstring list" where
  "splitSpaces piece [] = [piece]"
| "splitSpaces piece (c # cs) =
     (if isSpace c then piece # splitSpaces [] (dropWhile isSpace cs)
      else splitSpaces (piece @ [c]) cs)"
  by pat_completeness auto
termination
  by (relation "measure (\<lambda>(piece, cs). length cs)")
     (auto simp: length_dropWhile_le less_Suc_eq_le)

record wordStats =
  wordCount :: nat
  characterCount :: nat
  paragraphCount :: nat

text \<open>The extraction loop of this tool also counts the paragraphs.\<close>

fun countLoop :: "StructuralElement list \<Rightarrow> jsstring \<times> nat \<Rightarrow> jsError + jsstring \<times> nat" where
  "countLoop [] st = Inr st"
| "countLoop (element # rest) (documentText, n) =
     (case paragraph element of
        None \<Rightarrow> countLoop rest (documentText, n)
      | Some p \<Rightarrow>
          (case elements p of
             None \<Rightarrow> Inl TypeError
           | Some es \<Rightarrow>
               countLoop rest (documentText @ concat (map elemText es), n + 1)))"

definition get_word_count :: "StructuralElement list \<Rightarrow> jsError + wordStats" where
  "get_word_count body =
     (case countLoop body ([], 0) of
        Inl e \<Rightarrow> Inl e
      | Inr (documentText, n) \<Rightarrow>
          Inr \<lparr>wordCount =
                 length (filter (\<lambda>word. length word > 0) (splitSpaces [] (trim documentText))),
               characterCount = length documentText,
               paragraphCount = n\<rparr>)"

section \<open>Sanitizing a search query\<close>

text \<open>
  The argument is any JavaScript value; the functions look at \<open>typeof\<close> first.
  \<open>text.normalize('NFC')\<close> is the runtime's Unicode normalisation and is a parameter
  \<open>nfc\<close> of the model.
\<close>

datatype jsValue = JString jsstring | JNotString

definition sanitizeText :: "(jsstring \<Rightarrow> jsstring) \<Rightarrow> jsValue \<Rightarrow> jsstring" where
  "sanitizeText nfc v =
     (case v of
        JNotString \<Rightarrow> []
      | JString text \<Rightarrow> nfc (filter (\<lambda>c. c \<noteq> 0x00) text))"

definition escapeQuotes :: "jsstring \<Rightarrow> jsstring" where
  "escapeQuotes query = concat (map (\<lambda>c. if c = 0x27 then [0x5C, 0x27] else [c]) query)"

definition sanitizeSearchQuery :: "(jsstring \<Rightarrow> jsstring) \<Rightarrow> jsValue \<Rightarrow> jsstring" where
  "sanitizeSearchQuery nfc v =
     (case v of
        JNotString \<Rightarrow> []
      | JString query \<Rightarrow>
          sanitizeText nfc
            (JString (filter (\<lambda>c. c \<noteq> 0x3C \<and> c \<noteq> 0x3E) (escapeQuotes query))))"

section \<open>The document store\<close>

text \<open>
  Modelled from the spec: the document store that takes the batch is the Google Docs
  service, not code of the repository. In the spec a document has an index space of its
  own, in which a character of a text run takes one position and a structural element
  that is no text (a break, an inline object) takes positions without giving a character
  to the flat text. The store applies the edit operations of a batch one after the other,
  the whole batch or nothing: \<open>Delete(docStart, docEnd)\<close> removes the positions of the
  half-open range, \<open>Insert(docIndex, text)\<close> puts the characters of the text in at the
  index. A range or an index outside the document is refused (\<open>None\<close>).
\<close>

datatype position = TextUnit cu | NonText

fun applyRequest :: "request \<Rightarrow> position list \<Rightarrow> position list option" where
  "applyRequest (DeleteContentRange s e) d =
     (if s \<le> e \<and> e \<le> length d then Some (take s d @ drop e d) else None)"
| "applyRequest (InsertText i x) d =
     (if i \<le> length d then Some (take i d @ map TextUnit x @ drop i d) else None)"

fun applyRequests :: "request list \<Rightarrow> position list \<Rightarrow> position list option" where
  "applyRequests [] d = Some d"
| "applyRequests (r # rs) d =
     (case applyRequest r d of None \<Rightarrow> None | Some d' \<Rightarrow> applyRequests rs d')"

text \<open>The flat text of a document: its characters in order.\<close>

definition flatText :: "position list \<Rightarrow> jsstring" where
  "flatText d = concat (map (\<lambda>p. case p of TextUnit c \<Rightarrow> [c] | NonText \<Rightarrow> []) d)"

text \<open>
  The index space of a body as the reader hands it over: a text run takes the positions of
  its characters, a paragraph element without a text run the positions of its range, and
  a structural element that is no paragraph is the section break of one position.
\<close>

definition elementPositions :: "ParagraphElement \<Rightarrow> position list" where
  "elementPositions elem =
     (case textRun elem of
        None \<Rightarrow> replicate (elemEndIndex elem - elemStartIndex elem) NonText
      | Some tr \<Rightarrow> map TextUnit (elemText elem))"

definition documentOf :: "StructuralElement list \<Rightarrow> position list" where
  "documentOf body =
     concat (map (\<lambda>element. case paragraph element of
                               None \<Rightarrow> [NonText]
                             | Some p \<Rightarrow>
                                 (case elements p of
                                    None \<Rightarrow> []
                                  | Some es \<Rightarrow> concat (map elementPositions es)))
                 body)"

section \<open>The run table of the specification\<close>

text \<open>
  The specification's extractor keeps, for every text run, its range in the flat text and
  its range in the document's index space, and its offset mapper sends a flat range to a
  document range through that table. These two definitions follow the specification's
  words; the handlers have no counterpart of them.
\<close>

record run =
  flatStart :: nat
  flatEnd :: nat
  docStart :: nat
  docEnd :: nat

definition bodyElements :: "StructuralElement list \<Rightarrow> ParagraphElement list" where
  "bodyElements body =
     concat (map (\<lambda>element. case paragraph element of
                               None \<Rightarrow> []
                             | Some p \<Rightarrow> (case elements p of None \<Rightarrow> [] | Some es \<Rightarrow> es))
                 body)"

fun spec_runs :: "ParagraphElement list \<Rightarrow> nat \<Rightarrow> run list" where
  "spec_runs [] offset = []"
| "spec_runs (elem # rest) offset =
     (case textRun elem of
        None \<Rightarrow> spec_runs rest offset
      | Some tr \<Rightarrow>
          \<lparr>flatStart = offset, flatEnd = offset + length (elemText elem),
           docStart = elemStartIndex elem, docEnd = elemEndIndex elem\<rparr>
          # spec_runs rest (offset + length (elemText elem)))"

definition spec_mapToDocRange :: "run list \<Rightarrow> nat \<Rightarrow> nat \<Rightarrow> (nat \<times> nat) option" where
  "spec_mapToDocRange runs fs fe =
     (case find (\<lambda>r. flatStart r \<le> fs \<and> fs < flatEnd r) runs of
        None \<Rightarrow> None
      | Some a \<Rightarrow>
          (case find (\<lambda>r. flatStart r \<le> fe - 1 \<and> fe - 1 < flatEnd r) runs of
             None \<Rightarrow> None
           | Some b \<Rightarrow>
               Some (docStart a + (fs - flatStart a), docStart b + (fe - flatStart b))))"

section \<open>Auxiliary notions\<close>

text \<open>
  \<open>spacedFrom n lo ms\<close>: the first index is at least \<open>lo\<close> and each further index is at
  least \<open>n\<close> beyond the one before.
\<close>

fun spacedFrom :: "nat \<Rightarrow> nat \<Rightarrow> nat list \<Rightarrow> bool" where
  "spacedFrom n lo [] = True"
| "spacedFrom n lo (m # ms) = (lo \<le> m \<and> spacedFrom n (m + n) ms)"

text \<open>The two requests the replace loop emits for one match.\<close>

definition editPair :: "jsstring \<Rightarrow> jsstring \<Rightarrow> nat \<Rightarrow> request list" where
  "editPair findText replaceText m =
     [DeleteContentRange m (m + length findText), InsertText m replaceText]"

text \<open>
  \<open>escapedAfter b s\<close>: every single quote of \<open>s\<close> comes right after a backslash, where
  \<open>b\<close> says whether a backslash stands just before \<open>s\<close>.
\<close>

fun escapedAfter :: "bool \<Rightarrow> jsstring \<Rightarrow> bool" where
  "escapedAfter b [] = True"
| "escapedAfter b (c # cs) = ((if c = 0x27 then b else True) \<and> escapedAfter (c = 0x5C) cs)"

text \<open>
  A document as the API returns it for a body of one paragraph with one text run: the
  section break that opens every body takes index 0, the text starts at index 1.
\<close>

definition oneRunDocument :: "jsstring \<Rightarrow> StructuralElement list" where
  "oneRunDocument s =
     [\<lparr>paragraph = None\<rparr>,
      \<lparr>paragraph = Some \<lparr>elements = Some
         [\<lparr>elemStartIndex = 1, elemEndIndex = 1 + length s,
           textRun = Some \<lparr>content = Some s\<rparr>\<rparr>]\<rparr>\<rparr>]"

text \<open>
  A body of one paragraph in which an inline object stands between two text runs: z, a, b
  at index 1, the object at index 4, and a, b, newline at index 5.
\<close>

definition inlineObjectDocument :: "StructuralElement list" where
  "inlineObjectDocument =
     [\<lparr>paragraph = None\<rparr>,
      \<lparr>paragraph = Some \<lparr>elements = Some
         [\<lparr>elemStartIndex = 1, elemEndIndex = 4,
           textRun = Some \<lparr>content = Some [0x7A, 0x61, 0x62]\<rparr>\<rparr>,
          \<lparr>elemStartIndex = 4, elemEndIndex = 5, textRun = None\<rparr>,
          \<lparr>elemStartIndex = 5, elemEndIndex = 8,
           textRun = Some \<lparr>content = Some [0x61, 0x62, 0x0A]\<rparr>\<rparr>]\<rparr>\<rparr>]"

section \<open>Properties of the string operations and of the scan loop\<close>

lemma indexFrom_Some:
  "indexFrom needle hs k = Some i \<Longrightarrow>
     k \<le> i \<and> (i - k) + length needle \<le> length hs \<and> take (length needle) (drop (i - k) hs) = needle"
proof (induction hs arbitrary: k)
  case Nil
  then show ?case by (simp split: if_splits)
next
  case (Cons h hs)
  show ?case
  proof (cases "take (length needle) (h # hs) = needle")
    case True
    then have "length (take (length needle) (h # hs)) = length needle" by simp
    then have "length needle \<le> length (h # hs)" by simp
    with True Cons.prems show ?thesis by simp
  next
    case False
    with Cons.prems have r: "indexFrom needle hs (Suc k) = Some i" by simp
    from Cons.IH [OF r] have a: "Suc k \<le> i" and b: "(i - Suc k) + length needle \<le> length hs"
      and c: "take (length needle) (drop (i - Suc k) hs) = needle" by blast+
    from a have d: "i - k = Suc (i - Suc k)" by simp
    from a have "k \<le> i" by simp
    moreover from b have "(i - k) + length needle \<le> length (h # hs)" by (simp add: d)
    moreover from c have "take (length needle) (drop (i - k) (h # hs)) = needle" by (simp add: d)
    ultimately show ?thesis by blast
  qed
qed

lemma indexOf_Some:
  assumes "indexOf hay needle pos = Some i"
  shows "min pos (length hay) \<le> i" and "i + length needle \<le> length hay"
    and "take (length needle) (drop i hay) = needle"
proof -
  define s where "s = min pos (length hay)"
  from assms have r: "indexFrom needle (drop s hay) s = Some i"
    by (simp add: indexOf_def Let_def s_def)
  from indexFrom_Some [OF r] have a: "s \<le> i"
    and b: "(i - s) + length needle \<le> length (drop s hay)"
    and c: "take (length needle) (drop (i - s) (drop s hay)) = needle" by blast+
  from a show "min pos (length hay) \<le> i" by (simp add: s_def)
  have "s \<le> length hay" by (simp add: s_def)
  with a b show "i + length needle \<le> length hay" by simp
  from a have "i - s + s = i" by simp
  with c show "take (length needle) (drop i hay) = needle" by simp
qed

lemma indexFrom_empty: "indexFrom [] hs k = Some k"
  by (cases hs) simp_all

lemma indexOf_empty: "indexOf hay [] pos = Some (min pos (length hay))"
  by (simp add: indexOf_def Let_def indexFrom_empty)

lemma findMatches_stop: "indexOf d s i = None \<Longrightarrow> findMatches d s i ms = Inr ms"
  by (subst findMatches.simps) simp

lemma findMatches_step:
  "indexOf d s i = Some k \<Longrightarrow> length ms < maxArrayLength \<Longrightarrow>
     findMatches d s i ms = findMatches d s (k + length s) (ms @ [k])"
  by (subst findMatches.simps) simp

lemma findMatches_full:
  "indexOf d s i = Some k \<Longrightarrow> \<not> length ms < maxArrayLength \<Longrightarrow>
     findMatches d s i ms = Inl RangeError"
  by (subst findMatches.simps) simp

lemma findMatches_empty_needle: "findMatches d [] i ms = Inl RangeError"
proof (induction "maxArrayLength - length ms" arbitrary: i ms rule: less_induct)
  case less
  have io: "indexOf d [] i = Some (min i (length d))" by (rule indexOf_empty)
  show ?case
  proof (cases "length ms < maxArrayLength")
    case True
    then have "maxArrayLength - length (ms @ [min i (length d)]) < maxArrayLength - length ms"
      by simp
    from less [OF this] show ?thesis by (simp add: findMatches_step [OF io True])
  next
    case False
    then show ?thesis by (simp add: findMatches_full [OF io])
  qed
qed

lemma spacedFrom_lower: "spacedFrom n lo ms \<Longrightarrow> list_all (\<lambda>m. lo \<le> m) ms"
proof (induction ms arbitrary: lo)
  case Nil
  show ?case by simp
next
  case (Cons m ms)
  from Cons.prems have a: "lo \<le> m" and b: "spacedFrom n (m + n) ms" by simp_all
  from Cons.IH [OF b] have "list_all (\<lambda>x. m + n \<le> x) ms" .
  then have "list_all (\<lambda>x. lo \<le> x) ms"
    using a by (fastforce simp: list_all_iff)
  with a show ?case by simp
qed

lemma spacedFrom_sorted_wrt: "spacedFrom n lo ms \<Longrightarrow> sorted_wrt (\<lambda>a b. a + n \<le> b) ms"
proof (induction ms arbitrary: lo)
  case Nil
  show ?case by simp
next
  case (Cons m ms)
  from Cons.prems have b: "spacedFrom n (m + n) ms" by simp
  from spacedFrom_lower [OF b] have "\<forall>x\<in>set ms. m + n \<le> x" by (simp add: list_all_iff)
  with Cons.IH [OF b] show ?case by simp
qed

lemma findMatches_spaced:
  assumes "s \<noteq> []"
  shows "findMatches d s i acc = Inr res \<Longrightarrow>
           \<exists>ms. res = acc @ ms \<and> spacedFrom (length s) (min i (length d)) ms"
proof (induction "maxArrayLength - length acc" arbitrary: i acc rule: less_induct)
  case less
  show ?case
  proof (cases "indexOf d s i")
    case None
    with less.prems have "res = acc @ []" by (simp add: findMatches_stop)
    then show ?thesis by (intro exI [of _ "[]"]) simp
  next
    case (Some k)
    note io = indexOf_Some [OF Some]
    from assms have pos: "0 < length s" by simp
    have room: "length acc < maxArrayLength"
    proof (rule ccontr)
      assume "\<not> length acc < maxArrayLength"
      with less.prems show False by (simp add: findMatches_full [OF Some])
    qed
    then have dec: "maxArrayLength - length (acc @ [k]) < maxArrayLength - length acc" by simp
    from less.prems have "findMatches d s (k + length s) (acc @ [k]) = Inr res"
      by (simp add: findMatches_step [OF Some room])
    from less.hyps [OF dec this] obtain ms where
      r: "res = (acc @ [k]) @ ms"
      and sp: "spacedFrom (length s) (min (k + length s) (length d)) ms" by blast
    from io(2) have m: "min (k + length s) (length d) = k + length s" by simp
    have "res = acc @ (k # ms)" using r by simp
    moreover have "spacedFrom (length s) (min i (length d)) (k # ms)"
      using sp io(1) by (simp add: m)
    ultimately show ?thesis by blast
  qed
qed

lemma findMatches_returns:
  assumes "s \<noteq> []"
  shows "length acc + (length d - i) < maxArrayLength \<Longrightarrow> \<exists>res. findMatches d s i acc = Inr res"
proof (induction "length d - i" arbitrary: i acc rule: less_induct)
  case less
  show ?case
  proof (cases "indexOf d s i")
    case None
    then show ?thesis by (simp add: findMatches_stop)
  next
    case (Some k)
    note io = indexOf_Some [OF Some]
    from assms have pos: "0 < length s" by simp
    have ik: "i \<le> k"
    proof (rule ccontr)
      assume "\<not> i \<le> k"
      with io(1) have "length d \<le> k" by (simp add: min_def split: if_splits)
      with io(2) pos show False by simp
    qed
    from less.prems have room: "length acc < maxArrayLength" by simp
    from ik io(2) pos have dec: "length d - (k + length s) < length d - i" by arith
    from ik io(2) pos less.prems
    have "length acc + 1 + (length d - (k + length s)) < maxArrayLength" by arith
    then have fit: "length (acc @ [k]) + (length d - (k + length s)) < maxArrayLength" by simp
    from less.hyps [OF dec fit] show ?thesis
      by (simp add: findMatches_step [OF Some room])
  qed
qed

section \<open>The result of find_and_replace\<close>

lemma replaceLoop_all:
  "replaceLoop True f r ms (reqs, c) = (reqs @ concat (map (editPair f r) ms), c + length ms)"
  by (induction ms arbitrary: reqs c) (simp_all add: editPair_def)

lemma replaceLoop_done:
  "1 \<le> c \<Longrightarrow> replaceLoop False f r ms (reqs, c) = (reqs, c)"
  by (cases ms) simp_all

lemma replaceLoop_planned:
  "replaceLoop replaceAll f r ms ([], 0) =
     (concat (map (editPair f r) (if replaceAll then ms else take 1 ms)),
      length (if replaceAll then ms else take 1 ms))"
proof (cases replaceAll)
  case True
  then show ?thesis by (simp add: replaceLoop_all)
next
  case False
  then show ?thesis by (cases ms) (simp_all add: replaceLoop_done editPair_def)
qed

lemma spacedFrom_sorted: "spacedFrom n lo ms \<Longrightarrow> sorted ms"
proof -
  assume "spacedFrom n lo ms"
  then have "sorted_wrt (\<lambda>a b. a + n \<le> b) ms" by (rule spacedFrom_sorted_wrt)
  then show "sorted ms" by (rule sorted_wrt_mono_rel [rotated]) simp
qed

lemma sortDescending_sorted: "sorted ms \<Longrightarrow> sortDescending ms = rev ms"
  by (simp add: sortDescending_def sorted_sort_id)

lemma length_concat_editPair:
  "length (concat (map (editPair f r) ps)) = 2 * length ps"
  by (induction ps) (simp_all add: editPair_def)

lemma find_and_replace_Inr:
  assumes "find_and_replace toLowerCase body findText replaceText matchCase replaceAll = Inr r"
  shows "\<exists>T ms. extractText body [] = Inr T
           \<and> findMatches (if matchCase then T else toLowerCase T)
                 (if matchCase then findText else toLowerCase findText) 0 [] = Inr ms
           \<and> (if matchCase then findText else toLowerCase findText) \<noteq> []
           \<and> spacedFrom (length (if matchCase then findText else toLowerCase findText)) 0 ms
           \<and> r = (if ms = []
                    then \<lparr>success = False, replacementsCount = 0, requests = []\<rparr>
                    else \<lparr>success = True,
                          replacementsCount =
                            length (if replaceAll then rev ms else take 1 (rev ms)),
                          requests =
                            concat (map (editPair findText replaceText)
                              (if replaceAll then rev ms else take 1 (rev ms)))\<rparr>)"
proof -
  define docText where "docText T = (if matchCase then T else toLowerCase T)" for T
  define searchText where "searchText = (if matchCase then findText else toLowerCase findText)"
  obtain T where ex: "extractText body [] = Inr T"
    using assms by (cases "extractText body []") (simp_all add: find_and_replace_def)
  obtain ms where f: "findMatches (docText T) searchText 0 [] = Inr ms"
    using assms
    by (cases "findMatches (docText T) searchText 0 []")
       (simp_all add: find_and_replace_def ex Let_def docText_def searchText_def)
  have sne: "searchText \<noteq> []"
  proof
    assume "searchText = []"
    with f show False by (simp add: findMatches_empty_needle)
  qed
  from findMatches_spaced [OF sne f] have sp: "spacedFrom (length searchText) 0 ms" by simp
  then have "sorted ms" by (rule spacedFrom_sorted)
  then have sd: "sortDescending ms = rev ms" by (rule sortDescending_sorted)
  have "r = (if ms = []
             then \<lparr>success = False, replacementsCount = 0, requests = []\<rparr>
             else \<lparr>success = True,
                   replacementsCount =
                     length (if replaceAll then rev ms else take 1 (rev ms)),
                   requests =
                     concat (map (editPair findText replaceText)
                       (if replaceAll then rev ms else take 1 (rev ms)))\<rparr>)"
    using assms f unfolding docText_def searchText_def
    by (simp add: find_and_replace_def ex Let_def sd replaceLoop_planned split: if_splits)
  with ex f sne sp show ?thesis unfolding docText_def searchText_def by blast
qed

lemma find_and_replace_returns:
  assumes ex: "extractText body [] = Inr T"
    and ne: "(if matchCase then findText else toLowerCase findText) \<noteq> []"
    and fit: "length (if matchCase then T else toLowerCase T) < maxArrayLength"
  shows "\<exists>r. find_and_replace toLowerCase body findText replaceText matchCase replaceAll = Inr r"
proof -
  from fit have "length ([] :: nat list) + (length (if matchCase then T else toLowerCase T) - 0)
                   < maxArrayLength" by simp
  from findMatches_returns [OF ne this] obtain ms where
    "findMatches (if matchCase then T else toLowerCase T)
       (if matchCase then findText else toLowerCase findText) 0 [] = Inr ms" by blast
  then show ?thesis
    by (simp add: find_and_replace_def ex Let_def split: prod.splits)
qed

lemma extractText_oneRunDocument: "extractText (oneRunDocument s) [] = Inr s"
  by (simp add: oneRunDocument_def elemText_def)

section \<open>Unfolding the search loop\<close>

lemma searchLoop_stop:
  "indexOf dl stl i = None \<Longrightarrow> searchLoop D dl st stl limit i ms = ms"
  by (subst searchLoop.simps) simp

lemma searchLoop_full:
  "\<not> int (length ms) < limit \<Longrightarrow> searchLoop D dl st stl limit i ms = ms"
  by (subst searchLoop.simps) (simp split: option.splits)

lemma searchLoop_step:
  "indexOf dl stl i = Some k \<Longrightarrow> int (length ms) < limit \<Longrightarrow>
     searchLoop D dl st stl limit i ms =
       searchLoop D dl st stl limit (k + length st)
         (ms @ [\<lparr>startIndex = k, endIndex = k + length st,
                 context = substring D (k - 20) (min (length D) (k + length st + 20))\<rparr>])"
  by (subst searchLoop.simps) (simp add: Let_def)

section \<open>The replace plan\<close>




section \<open>The reported count\<close>

text \<open>
  C6. Whenever \<open>find_and_replace\<close> returns a result, the replacements it counts and the
  planned matches it skipped add up to the matches planned: every match found when
  \<open>replaceAll\<close> is true, one match, or none if there is none, when it is false. The
  skipped ones are the planned matches without their pair of requests in the batch, and
  there is none of them.
\<close>

theorem applied_and_skipped_add_up:
  assumes "find_and_replace toLowerCase body findText replaceText matchCase replaceAll = Inr r"
  shows "\<exists>T ms planned skipped.
           extractText body [] = Inr T
           \<and> findMatches (if matchCase then T else toLowerCase T)
                 (if matchCase then findText else toLowerCase findText) 0 [] = Inr ms
           \<and> planned = (if replaceAll then length ms else min 1 (length ms))
           \<and> skipped = planned - length (requests r) div 2
           \<and> skipped = 0
           \<and> replacementsCount r + skipped = planned"
proof -
  from find_and_replace_Inr [OF assms] obtain T ms where
    ex: "extractText body [] = Inr T"
    and f: "findMatches (if matchCase then T else toLowerCase T)
              (if matchCase then findText else toLowerCase findText) 0 [] = Inr ms"
    and r: "r = (if ms = []
                 then \<lparr>success = False, replacementsCount = 0, requests = []\<rparr>
                 else \<lparr>success = True,
                       replacementsCount =
                         length (if replaceAll then rev ms else take 1 (rev ms)),
                       requests =
                         concat (map (editPair findText replaceText)
                           (if replaceAll then rev ms else take 1 (rev ms)))\<rparr>)"
    by blast
  define planned where "planned = (if replaceAll then length ms else min 1 (length ms))"
  from r have c: "replacementsCount r = planned"
    by (auto simp: planned_def)
  from r have q: "length (requests r) = 2 * planned"
    by (auto simp: planned_def length_concat_editPair)
  from q have s0: "planned - length (requests r) div 2 = 0" by simp
  from c s0 have "replacementsCount r + (planned - length (requests r) div 2) = planned" by simp
  with ex f s0 planned_def show ?thesis by blast
qed

theorem applied_and_skipped_add_up_witness:
  "find_and_replace latinLowerCase (oneRunDocument [0x61, 0x41, 0x61]) [0x41] [0x78] False False =
     Inr \<lparr>success = True, replacementsCount = 1,
          requests = [DeleteContentRange 2 3, InsertText 2 [0x78]]\<rparr>
   \<and> (\<exists>T ms planned skipped.
         extractText (oneRunDocument [0x61, 0x41, 0x61]) [] = Inr T
         \<and> findMatches (latinLowerCase T) (latinLowerCase [0x41]) 0 [] = Inr ms
         \<and> length ms = 3
         \<and> planned = min 1 (length ms)
         \<and> skipped = planned - length [DeleteContentRange 2 3, InsertText 2 [0x78]] div 2
         \<and> skipped = 0
         \<and> 1 + skipped = planned)"
proof -
  have h: "find_and_replace latinLowerCase (oneRunDocument [0x61, 0x41, 0x61]) [0x41] [0x78]
       False False =
     Inr \<lparr>success = True, replacementsCount = 1,
          requests = [DeleteContentRange 2 3, InsertText 2 [0x78]]\<rparr>"
    by (simp add: find_and_replace_def extractText_oneRunDocument indexOf_def maxArrayLength_def
          latinLowerCase_def latinLowerUnit_def
          findMatches_step findMatches_stop sortDescending_def)
  have e: "extractText (oneRunDocument [0x61, 0x41, 0x61]) [] = Inr [0x61, 0x41, 0x61]"
    by (rule extractText_oneRunDocument)
  have m: "findMatches (latinLowerCase [0x61, 0x41, 0x61]) (latinLowerCase [0x41]) 0 [] =
             Inr [0, 1, 2]"
    by (simp add: indexOf_def maxArrayLength_def latinLowerCase_def latinLowerUnit_def
          findMatches_step findMatches_stop)
  from applied_and_skipped_add_up [OF h] e m show ?thesis using h by simp
qed

section \<open>Where the handlers part from the specification\<close>

text \<open>
  C1. A search that ignores case is to report ranges that index the text as it is, so
  that the reported slice, lower-cased, is the query lower-cased. The handlers look the
  query up in the lower-cased copy and report the index found there. In the text U+0130,
  a, b the copy is one code unit longer before the a, so the query a is reported at 2 to
  3, where the text has b; \<open>find_and_replace\<close> deletes that range.
\<close>

theorem case_insensitive_offsets_index_lowered_copy:
  "search_text_in_document latinLowerCase (oneRunDocument [0x130, 0x61, 0x62]) [0x61] False None =
     Inr [\<lparr>startIndex = 2, endIndex = 3, context = [0x130, 0x61, 0x62]\<rparr>]
   \<and> substring [0x130, 0x61, 0x62] 2 3 = [0x62]
   \<and> latinLowerCase (substring [0x130, 0x61, 0x62] 2 3) \<noteq> latinLowerCase [0x61]
   \<and> find_and_replace latinLowerCase (oneRunDocument [0x130, 0x61, 0x62]) [0x61] [0x78]
         False False =
       Inr \<lparr>success = True, replacementsCount = 1,
            requests = [DeleteContentRange 2 3, InsertText 2 [0x78]]\<rparr>"
  by (simp add: search_text_in_document_def find_and_replace_def extractText_oneRunDocument
        latinLowerCase_def latinLowerUnit_def indexOf_def substring_def maxArrayLength_def
        searchLoop_step searchLoop_stop findMatches_step findMatches_stop sortDescending_def)

text \<open>
  C2. With \<open>replaceAll\<close> false the plan is to touch the first match in document order.
  The loop that stops after one replacement runs over the matches sorted in descending
  order, so the one match it replaces is the last: in a, X, a the matches of a are at 0
  and 2, and the batch deletes 2 to 3.
\<close>

theorem single_replace_takes_last_match:
  "findMatches [0x61, 0x58, 0x61] [0x61] 0 [] = Inr [0, 2]
   \<and> find_and_replace latinLowerCase (oneRunDocument [0x61, 0x58, 0x61]) [0x61] [0x78]
         True False =
       Inr \<lparr>success = True, replacementsCount = 1,
            requests = [DeleteContentRange 2 3, InsertText 2 [0x78]]\<rparr>"
  by (simp add: find_and_replace_def extractText_oneRunDocument indexOf_def maxArrayLength_def
        findMatches_step findMatches_stop sortDescending_def)

text \<open>
  C3. An empty query is to be rejected with an error. \<open>search_text_in_document\<close> has no
  guard for it: the empty needle is found at index 0 each time round, and the tool reports
  success with as many empty matches at index 0 as \<open>maxResults\<close> allows.
\<close>

theorem empty_query_is_not_rejected:
  "search_text_in_document latinLowerCase (oneRunDocument [0x61, 0x62]) [] True (Some 3) =
     Inr [\<lparr>startIndex = 0, endIndex = 0, context = [0x61, 0x62]\<rparr>,
          \<lparr>startIndex = 0, endIndex = 0, context = [0x61, 0x62]\<rparr>,
          \<lparr>startIndex = 0, endIndex = 0, context = [0x61, 0x62]\<rparr>]"
  by (simp add: search_text_in_document_def extractText_oneRunDocument
        indexOf_empty substring_def searchLoop_step searchLoop_full)

text \<open>
  C4. The range of an edit is to be the flat range of the match sent through the run
  table, \<open>docStart = run.docStart + (flatStart - run.flatStart)\<close>. The handler puts the
  flat offset into the request as it is: for a body whose one text run a, b, newline
  starts at document index 1, the match of b at flat offset 1 is deleted as 1 to 2, while
  the run table maps it to 2 to 3.
\<close>

theorem replace_requests_use_flat_offsets:
  "find_and_replace latinLowerCase (oneRunDocument [0x61, 0x62, 0x0A]) [0x62] [0x78]
       True False =
     Inr \<lparr>success = True, replacementsCount = 1,
          requests = [DeleteContentRange 1 2, InsertText 1 [0x78]]\<rparr>
   \<and> spec_mapToDocRange (spec_runs (bodyElements (oneRunDocument [0x61, 0x62, 0x0A])) 0) 1 2 =
       Some (2, 3)"
  by (simp add: find_and_replace_def extractText_oneRunDocument indexOf_def maxArrayLength_def
        findMatches_step findMatches_stop sortDescending_def
        spec_mapToDocRange_def bodyElements_def oneRunDocument_def elemText_def)


text \<open>
  C8. With a replacement as long as the text searched for, applying the batch of
  \<open>replaceAll\<close> is to leave the length of the flat text as it was. The requests carry
  offsets of the flat text where the store has indices of its own. In the body with an
  inline object between the runs z, a, b and a, b, newline the matches of a, b are at the
  flat offsets 1 and 3; the batch deletes the index ranges 3 to 5 and 1 to 3, and with
  them the b, the object, the z and the first a: the flat text goes from six code units
  to seven.
\<close>

theorem flat_offsets_in_index_space_change_length:
  "length [0x78 :: cu, 0x79] = length [0x61 :: cu, 0x62]
   \<and> extractText inlineObjectDocument [] = Inr [0x7A, 0x61, 0x62, 0x61, 0x62, 0x0A]
   \<and> find_and_replace latinLowerCase inlineObjectDocument [0x61, 0x62] [0x78, 0x79] True True =
       Inr \<lparr>success = True, replacementsCount = 2,
            requests = [DeleteContentRange 3 5, InsertText 3 [0x78, 0x79],
                        DeleteContentRange 1 3, InsertText 1 [0x78, 0x79]]\<rparr>
   \<and> documentOf inlineObjectDocument =
       [NonText, TextUnit 0x7A, TextUnit 0x61, TextUnit 0x62, NonText,
        TextUnit 0x61, TextUnit 0x62, TextUnit 0x0A]
   \<and> flatText (documentOf inlineObjectDocument) = [0x7A, 0x61, 0x62, 0x61, 0x62, 0x0A]
   \<and> applyRequests [DeleteContentRange 3 5, InsertText 3 [0x78, 0x79],
                     DeleteContentRange 1 3, InsertText 1 [0x78, 0x79]]
         (documentOf inlineObjectDocument) =
       Some [NonText, TextUnit 0x78, TextUnit 0x79, TextUnit 0x78, TextUnit 0x79,
             TextUnit 0x61, TextUnit 0x62, TextUnit 0x0A]
   \<and> flatText [NonText, TextUnit 0x78, TextUnit 0x79, TextUnit 0x78, TextUnit 0x79,
                TextUnit 0x61, TextUnit 0x62, TextUnit 0x0A] =
       [0x78, 0x79, 0x78, 0x79, 0x61, 0x62, 0x0A]
   \<and> length [0x78 :: cu, 0x79, 0x78, 0x79, 0x61, 0x62, 0x0A]
       \<noteq> length [0x7A :: cu, 0x61, 0x62, 0x61, 0x62, 0x0A]"
  by (simp add: find_and_replace_def inlineObjectDocument_def elemText_def indexOf_def
        maxArrayLength_def findMatches_step findMatches_stop sortDescending_def
        documentOf_def elementPositions_def flatText_def)

section \<open>Document statistics\<close>

lemma countLoop_extractText:
  "countLoop body (t, n) = Inr (t', n') \<Longrightarrow> extractText body t = Inr t'"
proof (induction body arbitrary: t n)
  case Nil
  then show ?case by simp
next
  case (Cons element rest)
  then show ?case by (auto split: option.splits)
qed

lemma extractText_concat:
  "extractText body t = Inr t' \<Longrightarrow> t' = t @ concat (map elemText (bodyElements body))"
proof (induction body arbitrary: t)
  case Nil
  then show ?case by (simp add: bodyElements_def)
next
  case (Cons element rest)
  show ?case
  proof (cases "paragraph element")
    case None
    with Cons.prems have "extractText rest t = Inr t'" by simp
    from Cons.IH [OF this] None show ?thesis by (simp add: bodyElements_def)
  next
    case (Some p)
    show ?thesis
    proof (cases "elements p")
      case None
      with Some Cons.prems show ?thesis by simp
    next
      case (Some es)
      with \<open>paragraph element = Some p\<close> Cons.prems
      have "extractText rest (t @ concat (map elemText es)) = Inr t'" by simp
      from Cons.IH [OF this] Some \<open>paragraph element = Some p\<close>
      show ?thesis by (simp add: bodyElements_def)
    qed
  qed
qed

lemma trim_spaces:
  assumes "\<forall>c\<in>set s. isSpace c"
  shows "trim s = []"
proof -
  from assms have d: "dropWhile isSpace s = []" by simp
  show ?thesis unfolding trim_def d by simp
qed

text \<open>
  C10. Whenever \<open>get_word_count\<close> returns its statistics, \<open>characterCount\<close> is the length
  of the extracted text, the contents of all text runs put together with every white-space
  unit and newline counted, and \<open>wordCount\<close> is 0 when that text is empty or holds
  nothing but white space.
\<close>

theorem word_count_of_blank_text:
  assumes "get_word_count body = Inr st"
  shows "\<exists>T. extractText body [] = Inr T
           \<and> T = concat (map elemText (bodyElements body))
           \<and> characterCount st = length T
           \<and> ((\<forall>c\<in>set T. isSpace c) \<longrightarrow> wordCount st = 0)"
proof (cases "countLoop body ([], 0)")
  case (Inl e)
  with assms show ?thesis by (simp add: get_word_count_def)
next
  case (Inr p)
  obtain T n where p: "p = (T, n)" by (cases p)
  from Inr p have ex: "extractText body [] = Inr T" by (simp add: countLoop_extractText)
  from assms Inr p have st: "st = \<lparr>wordCount =
                 length (filter (\<lambda>word. length word > 0) (splitSpaces [] (trim T))),
               characterCount = length T, paragraphCount = n\<rparr>"
    by (simp add: get_word_count_def)
  have "wordCount st = 0" if "\<forall>c\<in>set T. isSpace c"
    using trim_spaces [OF that] by (simp add: st)
  moreover from extractText_concat [OF ex]
  have "T = concat (map elemText (bodyElements body))" by simp
  ultimately show ?thesis using ex st by simp
qed

theorem word_count_of_blank_text_witness:
  "get_word_count (oneRunDocument [0x20, 0x0A]) =
     Inr \<lparr>wordCount = 0, characterCount = 2, paragraphCount = 1\<rparr>
   \<and> (\<exists>T. extractText (oneRunDocument [0x20, 0x0A]) [] = Inr T
         \<and> T = concat (map elemText (bodyElements (oneRunDocument [0x20, 0x0A])))
         \<and> 2 = length T
         \<and> (\<forall>c\<in>set T. isSpace c))"
proof -
  have h: "get_word_count (oneRunDocument [0x20, 0x0A]) =
     Inr \<lparr>wordCount = 0, characterCount = 2, paragraphCount = 1\<rparr>"
    by (simp add: get_word_count_def oneRunDocument_def elemText_def trim_def isSpace_def)
  have e: "extractText (oneRunDocument [0x20, 0x0A]) [] = Inr [0x20, 0x0A]"
    by (rule extractText_oneRunDocument)
  from word_count_of_blank_text [OF h] e show ?thesis using h by (simp add: isSpace_def)
qed

section \<open>The sanitized query\<close>

lemma escapedAfter_no_quote: "0x27 \<notin> set s \<Longrightarrow> escapedAfter b s"
  by (induction s arbitrary: b) simp_all

lemma escapedAfter_append:
  "escapedAfter b (xs @ ys) =
     (escapedAfter b xs \<and> escapedAfter (if xs = [] then b else last xs = 0x5C) ys)"
  by (induction xs arbitrary: b) simp_all

lemma escapedAfter_nth:
  "escapedAfter b s \<Longrightarrow> i < length s \<Longrightarrow> s ! i = 0x27 \<Longrightarrow>
     (if i = 0 then b else s ! (i - 1) = 0x5C)"
proof (induction s arbitrary: b i)
  case Nil
  then show ?case by simp
next
  case (Cons c cs)
  show ?case
  proof (cases i)
    case 0
    with Cons.prems show ?thesis by simp
  next
    case (Suc j)
    with Cons.prems have e: "escapedAfter (c = 0x5C) cs" and j: "j < length cs"
      and q: "cs ! j = 0x27" by simp_all
    from Cons.IH [OF e j q] have "if j = 0 then c = 0x5C else cs ! (j - 1) = 0x5C" .
    with Suc show ?thesis by (cases j) simp_all
  qed
qed

lemma escapedAfter_stripped:
  "escapedAfter b (filter (\<lambda>c. c \<noteq> 0x00)
     (filter (\<lambda>c. c \<noteq> 0x3C \<and> c \<noteq> 0x3E) (escapeQuotes q)))"
  by (induction q arbitrary: b) (simp_all add: escapeQuotes_def)

lemma nfc_keeps_escapes:
  assumes n0: "nfc [] = []"
    and n1: "\<forall>xs c ys. c = 0x27 \<or> c = 0x5C \<longrightarrow> nfc (xs @ c # ys) = nfc xs @ c # nfc ys"
    and n2: "\<forall>s. 0x27 \<in> set (nfc s) \<longrightarrow> 0x27 \<in> set s"
  shows "escapedAfter b s \<Longrightarrow> escapedAfter b (nfc s)"
proof (induction "length s" arbitrary: s b rule: less_induct)
  case less
  show ?case
  proof (cases "\<exists>c\<in>set s. c = 0x27 \<or> c = 0x5C")
    case False
    then have "0x27 \<notin> set s" by blast
    with n2 have "0x27 \<notin> set (nfc s)" by blast
    then show ?thesis by (rule escapedAfter_no_quote)
  next
    case True
    from split_list_first_prop [OF True]
    obtain xs c ys where s: "s = xs @ c # ys" and c: "c = 0x27 \<or> c = 0x5C"
      and xs: "\<forall>x\<in>set xs. \<not> (x = 0x27 \<or> x = 0x5C)"
      by blast
    from c n1 have n: "nfc s = nfc xs @ c # nfc ys" unfolding s by blast
    from xs have "0x27 \<notin> set xs" by blast
    with n2 have "0x27 \<notin> set (nfc xs)" by blast
    then have front: "escapedAfter b (nfc xs)" by (rule escapedAfter_no_quote)
    have lastxs: "xs \<noteq> [] \<Longrightarrow> last xs \<noteq> 0x5C"
      using xs last_in_set by blast
    from less.prems have "escapedAfter (if xs = [] then b else last xs = 0x5C) (c # ys)"
      by (simp add: s escapedAfter_append)
    with lastxs have q: "c = 0x27 \<longrightarrow> xs = [] \<and> b" and tl: "escapedAfter (c = 0x5C) ys"
      by (auto split: if_splits)
    have "length ys < length s" by (simp add: s)
    from less.hyps [OF this tl] have tl': "escapedAfter (c = 0x5C) (nfc ys)" .
    have "escapedAfter (if nfc xs = [] then b else last (nfc xs) = 0x5C) (c # nfc ys)"
    proof (cases "c = 0x27")
      case True
      with q have "xs = []" and b by simp_all
      with n0 tl' show ?thesis by simp
    next
      case False
      with tl' show ?thesis by simp
    qed
    with front show ?thesis by (simp add: n escapedAfter_append)
  qed
qed

text \<open>
  C9. For every string \<open>q\<close>, in \<open>sanitizeSearchQuery(q)\<close> every single quote comes right
  after a backslash, and there is no \<open><\<close>, no \<open>>\<close> and no NUL; for an argument that is
  not a string the result is the empty string. The normalisation at the end is the
  runtime's; the theorem asks of it what NFC does: the empty string stays empty, the
  single quote and the backslash take no part in normalisation, so that the text is
  normalised piece by piece between them, and none of the code units NUL, single quote,
  \<open><\<close>, \<open>>\<close> turns up in the result unless it was in the argument.
\<close>

theorem sanitizeSearchQuery_escapes_and_strips:
  assumes n0: "nfc [] = []"
    and n1: "\<forall>xs c ys. c = 0x27 \<or> c = 0x5C \<longrightarrow> nfc (xs @ c # ys) = nfc xs @ c # nfc ys"
    and n2: "\<forall>s c. c \<in> set (nfc s) \<longrightarrow> c \<in> {0x00, 0x27, 0x3C, 0x3E} \<longrightarrow> c \<in> set s"
  shows "(\<forall>i < length (sanitizeSearchQuery nfc (JString q)).
            sanitizeSearchQuery nfc (JString q) ! i = 0x27 \<longrightarrow>
              0 < i \<and> sanitizeSearchQuery nfc (JString q) ! (i - 1) = 0x5C)
       \<and> 0x3C \<notin> set (sanitizeSearchQuery nfc (JString q))
       \<and> 0x3E \<notin> set (sanitizeSearchQuery nfc (JString q))
       \<and> 0x00 \<notin> set (sanitizeSearchQuery nfc (JString q))
       \<and> sanitizeSearchQuery nfc JNotString = []"
proof -
  define p where
    "p = filter (\<lambda>c. c \<noteq> 0x00) (filter (\<lambda>c. c \<noteq> 0x3C \<and> c \<noteq> 0x3E) (escapeQuotes q))"
  have r: "sanitizeSearchQuery nfc (JString q) = nfc p"
    by (simp add: sanitizeSearchQuery_def sanitizeText_def p_def)
  have pre: "escapedAfter False p" unfolding p_def by (rule escapedAfter_stripped)
  from n2 have n2': "\<forall>s. 0x27 \<in> set (nfc s) \<longrightarrow> 0x27 \<in> set s" by blast
  have e: "escapedAfter False (nfc p)"
    by (rule nfc_keeps_escapes [OF n0 n1 n2' pre])
  have quotes: "\<forall>i < length (nfc p). nfc p ! i = 0x27 \<longrightarrow> 0 < i \<and> nfc p ! (i - 1) = 0x5C"
  proof (intro allI impI)
    fix i assume i: "i < length (nfc p)" and q: "nfc p ! i = 0x27"
    from escapedAfter_nth [OF e i q] show "0 < i \<and> nfc p ! (i - 1) = 0x5C"
      by (cases "i = 0") simp_all
  qed
  have "0x3C \<notin> set p" "0x3E \<notin> set p" "0x00 \<notin> set p" by (simp_all add: p_def)
  with n2 have "0x3C \<notin> set (nfc p)" "0x3E \<notin> set (nfc p)" "0x00 \<notin> set (nfc p)" by blast+
  moreover have "sanitizeSearchQuery nfc JNotString = []"
    by (simp add: sanitizeSearchQuery_def)
  ultimately show ?thesis using quotes by (simp add: r)
qed

theorem sanitizeSearchQuery_escapes_and_strips_witness:
  "sanitizeSearchQuery (\<lambda>s. s) (JString [0x27, 0x3C, 0x61, 0x00, 0x27, 0x3E]) =
     [0x5C, 0x27, 0x61, 0x5C, 0x27]
   \<and> sanitizeSearchQuery (\<lambda>s. s) (JString [0x27, 0x3C, 0x61, 0x00, 0x27, 0x3E]) ! 4 = 0x27
   \<and> sanitizeSearchQuery (\<lambda>s. s) (JString [0x27, 0x3C, 0x61, 0x00, 0x27, 0x3E]) ! (4 - 1) = 0x5C
   \<and> 0x3C \<notin> set (sanitizeSearchQuery (\<lambda>s. s) (JString [0x27, 0x3C, 0x61, 0x00, 0x27, 0x3E]))
   \<and> 0x3E \<notin> set (sanitizeSearchQuery (\<lambda>s. s) (JString [0x27, 0x3C, 0x61, 0x00, 0x27, 0x3E]))
   \<and> 0x00 \<notin> set (sanitizeSearchQuery (\<lambda>s. s) (JString [0x27, 0x3C, 0x61, 0x00, 0x27, 0x3E]))
   \<and> sanitizeSearchQuery (\<lambda>s. s) JNotString = []"
proof -
  define R where "R = sanitizeSearchQuery (\<lambda>s. s) (JString [0x27, 0x3C, 0x61, 0x00, 0x27, 0x3E])"
  have n0: "(\<lambda>s :: jsstring. s) [] = []" by simp
  have n1: "\<forall>xs c ys. c = 0x27 \<or> c = 0x5C \<longrightarrow>
              (\<lambda>s :: jsstring. s) (xs @ c # ys) = (\<lambda>s. s) xs @ c # (\<lambda>s. s) ys" by simp
  have n2: "\<forall>s c. c \<in> set ((\<lambda>s :: jsstring. s) s) \<longrightarrow> c \<in> {0x00, 0x27, 0x3C, 0x3E} \<longrightarrow> c \<in> set s"
    by simp
  have v: "R = [0x5C, 0x27, 0x61, 0x5C, 0x27]"
    by (simp add: R_def sanitizeSearchQuery_def sanitizeText_def escapeQuotes_def)
  note t = sanitizeSearchQuery_escapes_and_strips [OF n0 n1 n2,
      of "[0x27, 0x3C, 0x61, 0x00, 0x27, 0x3E]", folded R_def]
  from t have q: "\<forall>i < length R. R ! i = 0x27 \<longrightarrow> 0 < i \<and> R ! (i - 1) = 0x5C"
    and clean: "0x3C \<notin> set R" "0x3E \<notin> set R" "0x00 \<notin> set R"
    and other: "sanitizeSearchQuery (\<lambda>s. s) JNotString = []" by blast+
  have i: "4 < length R" and at: "R ! 4 = 0x27" by (simp_all add: v)
  from q i at have "R ! (4 - 1) = 0x5C" by blast
  with v at clean other show ?thesis unfolding R_def by blast
qed

end
